theory Spec2Isabelle
  imports Complex_Main
begin

section \<open>Work scheduler (src/src/scheduler/work\_scheduler.py)\<close>

text \<open>
  Python exceptions that the modelled code can raise or catch.  \<open>ValueError\<close> is what
  \<open>datetime.time(h, m)\<close> raises for an hour outside 0..23 or a minute outside 0..59;
  \<open>Raised\<close> carries the message of an exception thrown by a callback or a service.
\<close>

datatype error = ValueError | Raised string

text \<open>
  \<open>datetime.time\<close>: hour, minute, second, microsecond.  Python orders naive time objects
  as the tuples of these four fields.
\<close>

record dt_time =
  hour :: int
  minute :: int
  second :: int
  microsecond :: int

definition time_le :: "dt_time \<Rightarrow> dt_time \<Rightarrow> bool" where
  "time_le a b =
     (hour a < hour b \<or> (hour a = hour b \<and>
       (minute a < minute b \<or> (minute a = minute b \<and>
         (second a < second b \<or> (second a = second b \<and>
           microsecond a \<le> microsecond b))))))"

text \<open>The constructor call \<open>dt_time(h, m)\<close>: seconds and microseconds default to 0.\<close>

definition mk_time :: "int \<Rightarrow> int \<Rightarrow> error + dt_time" where
  "mk_time h m =
     (if 0 \<le> h \<and> h \<le> 23 \<and> 0 \<le> m \<and> m \<le> 59
      then Inr \<lparr>hour = h, minute = m, second = 0, microsecond = 0\<rparr>
      else Inl ValueError)"

text \<open>
  What one call of \<open>datetime.now()\<close> gives the scheduler: the weekday
  (0 = Monday .. 6 = Sunday) and the time of day.
\<close>

record clock =
  weekday :: int
  time_of_day :: dt_time

definition valid_clock :: "clock \<Rightarrow> bool" where
  "valid_clock c =
     (0 \<le> weekday c \<and> weekday c \<le> 6 \<and>
      0 \<le> hour (time_of_day c) \<and> hour (time_of_day c) \<le> 23 \<and>
      0 \<le> minute (time_of_day c) \<and> minute (time_of_day c) \<le> 59 \<and>
      0 \<le> second (time_of_day c) \<and> second (time_of_day c) \<le> 59 \<and>
      0 \<le> microsecond (time_of_day c) \<and> microsecond (time_of_day c) \<le> 999999)"

record WorkSchedule =
  start_hour :: int
  start_minute :: int
  end_hour :: int
  end_minute :: int
  enabled_days :: "int list"

definition valid_schedule :: "WorkSchedule \<Rightarrow> bool" where
  "valid_schedule s =
     (0 \<le> start_hour s \<and> start_hour s \<le> 23 \<and> 0 \<le> start_minute s \<and> start_minute s \<le> 59 \<and>
      0 \<le> end_hour s \<and> end_hour s \<le> 23 \<and> 0 \<le> end_minute s \<and> end_minute s \<le> 59)"

text \<open>
  \<open>WorkScheduler.is_work_time\<close>, with the clock reading as an argument.  The weekday
  test returns before the two time objects are built, so an out-of-range schedule raises
  only on an enabled day.
\<close>

definition is_work_time :: "WorkSchedule \<Rightarrow> clock \<Rightarrow> error + bool" where
  "is_work_time sch now =
     (let current_time = time_of_day now; current_day = weekday now in
      if current_day \<notin> set (enabled_days sch) then Inr False
      else case mk_time (start_hour sch) (start_minute sch) of
        Inl e \<Rightarrow> Inl e
      | Inr start_time \<Rightarrow>
         (case mk_time (end_hour sch) (end_minute sch) of
            Inl e \<Rightarrow> Inl e
          | Inr end_time \<Rightarrow>
             if time_le start_time end_time
             then Inr (time_le start_time current_time \<and> time_le current_time end_time)
             else Inr (time_le start_time current_time \<or> time_le current_time end_time)))"

text \<open>
  \<open>WorkScheduler.minutes_until_work_start\<close>.  The source reads the clock twice: once
  inside \<open>is_work_time\<close> and once for the arithmetic; \<open>now1\<close> and \<open>now2\<close> are the two
  readings.  \<open>None\<close> is Python's \<open>None\<close>.
\<close>

definition minutes_until_work_start :: "WorkSchedule \<Rightarrow> clock \<Rightarrow> clock \<Rightarrow> error + int option" where
  "minutes_until_work_start sch now1 now2 =
     (case is_work_time sch now1 of
        Inl e \<Rightarrow> Inl e
      | Inr True \<Rightarrow> Inr None
      | Inr False \<Rightarrow>
         (let current_minutes = hour (time_of_day now2) * 60 + minute (time_of_day now2);
              start_minutes = start_hour sch * 60 + start_minute sch in
          if start_minutes > current_minutes
          then Inr (Some (start_minutes - current_minutes))
          else Inr (Some ((24 * 60 - current_minutes) + start_minutes))))"

text \<open>Microseconds since midnight, the scale on which the claims speak of a time of day.\<close>

definition usec_of_day :: "dt_time \<Rightarrow> int" where
  "usec_of_day t = ((hour t * 60 + minute t) * 60 + second t) * 1000000 + microsecond t"

definition hm :: "int \<Rightarrow> int \<Rightarrow> dt_time" where
  "hm h m = \<lparr>hour = h, minute = m, second = 0, microsecond = 0\<rparr>"

text \<open>
  What a call of a callback or of a service method does: it returns a value or raises.
  The callbacks and the service objects are supplied by the caller, so their behaviour at
  each call is an input of the model.
\<close>

datatype 'a outcome = Returns 'a | Raises string

record WorkScheduler =
  schedule :: WorkSchedule
  auto_start_enabled :: bool
  auto_stop_enabled :: bool
  is_running :: bool
  manual_override :: bool
  services_started :: bool

datatype callback = StartCallback | StopCallback

text \<open>
  One iteration of the \<open>while self.is_running\<close> loop of \<open>_scheduler_loop\<close>, without the
  sleep: the body of the \<open>try\<close>.  The result is the new scheduler state and the callbacks
  invoked, in order.  Any exception (of \<open>is_work_time\<close> or of a callback) is caught by
  \<open>except Exception\<close> and only logged, leaving the state as it was when it was raised.
\<close>

definition scheduler_tick ::
  "WorkScheduler \<Rightarrow> clock \<Rightarrow> bool outcome \<Rightarrow> unit outcome \<Rightarrow> WorkScheduler \<times> callback list" where
  "scheduler_tick ws now start_callback stop_callback =
     (if \<not> manual_override ws then
        (case is_work_time (schedule ws) now of
           Inl e \<Rightarrow> (ws, [])
         | Inr current_work_time \<Rightarrow>
             if current_work_time \<and> \<not> services_started ws \<and> auto_start_enabled ws then
               (case start_callback of
                  Returns ok \<Rightarrow>
                    if ok then (ws\<lparr>services_started := True\<rparr>, [StartCallback])
                    else (ws, [StartCallback])
                | Raises e \<Rightarrow> (ws, [StartCallback]))
             else if \<not> current_work_time \<and> services_started ws \<and> auto_stop_enabled ws then
               (case stop_callback of
                  Returns u \<Rightarrow> (ws\<lparr>services_started := False\<rparr>, [StopCallback])
                | Raises e \<Rightarrow> (ws, [StopCallback]))
             else (ws, []))
      else (ws, []))"

text \<open>
  The loop itself, run over the readings of its successive iterations (clock, what the
  start callback would do, what the stop callback would do); it ends when \<open>is_running\<close> is
  false or the readings are used up.
\<close>

fun scheduler_loop ::
  "WorkScheduler \<Rightarrow> (clock \<times> bool outcome \<times> unit outcome) list \<Rightarrow> WorkScheduler \<times> callback list" where
  "scheduler_loop ws [] = (ws, [])"
| "scheduler_loop ws ((now, start_callback, stop_callback) # rest) =
     (if is_running ws then
        (let (ws1, calls1) = scheduler_tick ws now start_callback stop_callback;
             (ws2, calls2) = scheduler_loop ws1 rest
         in (ws2, calls1 @ calls2))
      else (ws, []))"

section \<open>Service manager (src/src/scheduler/service\_manager.py)\<close>

datatype ServiceStatus = STOPPED | STARTING | RUNNING | STOPPING | ERROR

text \<open>One entry of the \<open>services\<close> dictionary; \<open>'i\<close> is the type of registered objects.\<close>

record 'i service =
  name :: string
  status :: ServiceStatus
  "instance" :: "'i option"
  error_message :: "string option"

text \<open>
  The manager: the dictionary, in its insertion order, as an association list, and a
  history of every assignment to a \<open>status\<close> field (service id, old value, new value),
  oldest first.  The history is not in the source; it records the transitions taken.
\<close>

record 'i ServiceManager =
  services :: "(string \<times> 'i service) list"
  history :: "(string \<times> ServiceStatus \<times> ServiceStatus) list"

definition init_manager :: "'i ServiceManager" where
  "init_manager =
     \<lparr>services =
        [(''camera'', \<lparr>name = ''Camera Monitoring'', status = STOPPED,
                       instance = None, error_message = None\<rparr>),
         (''vibration'', \<lparr>name = ''Vibration Monitoring'', status = STOPPED,
                       instance = None, error_message = None\<rparr>),
         (''frying'', \<lparr>name = ''Frying AI Monitoring'', status = STOPPED,
                       instance = None, error_message = None\<rparr>)],
      history = []\<rparr>"

definition update_service ::
  "string \<Rightarrow> ('i service \<Rightarrow> 'i service) \<Rightarrow> (string \<times> 'i service) list \<Rightarrow> (string \<times> 'i service) list" where
  "update_service sid f svcs = map (\<lambda>(k, v). if k = sid then (k, f v) else (k, v)) svcs"

text \<open>\<open>service['status'] = st\<close> for the entry \<open>sid\<close>.\<close>

definition set_status :: "string \<Rightarrow> ServiceStatus \<Rightarrow> 'i ServiceManager \<Rightarrow> 'i ServiceManager" where
  "set_status sid st m =
     (case map_of (services m) sid of
        None \<Rightarrow> m
      | Some service \<Rightarrow>
          m\<lparr>services := update_service sid (\<lambda>v. v\<lparr>status := st\<rparr>) (services m),
            history := history m @ [(sid, status service, st)]\<rparr>)"

definition set_error_message :: "string \<Rightarrow> string option \<Rightarrow> 'i ServiceManager \<Rightarrow> 'i ServiceManager" where
  "set_error_message sid msg m =
     m\<lparr>services := update_service sid (\<lambda>v. v\<lparr>error_message := msg\<rparr>) (services m)\<rparr>"

definition register_service :: "string \<Rightarrow> 'i \<Rightarrow> 'i ServiceManager \<Rightarrow> 'i ServiceManager" where
  "register_service sid inst m =
     (if sid \<in> set (map fst (services m))
      then m\<lparr>services := update_service sid (\<lambda>v. v\<lparr>instance := Some inst\<rparr>) (services m)\<rparr>
      else m)"

text \<open>
  \<open>start_service\<close>.  \<open>started\<close> is what the service-specific start method
  (\<open>_start_camera_service\<close> and its siblings, which probe the object for a start method
  and call it) does at this call.
\<close>

definition start_service :: "string \<Rightarrow> bool outcome \<Rightarrow> 'i ServiceManager \<Rightarrow> bool \<times> 'i ServiceManager" where
  "start_service sid started m =
     (case map_of (services m) sid of
        None \<Rightarrow> (False, m)
      | Some service \<Rightarrow>
          if status service = RUNNING then (True, m)
          else
            (let m1 = set_error_message sid None (set_status sid STARTING m) in
             case instance service of
               None \<Rightarrow>
                 (False, set_error_message sid (Some ''Service instance not registered'')
                           (set_status sid ERROR m1))
             | Some inst \<Rightarrow>
                 (case (if sid = ''camera'' \<or> sid = ''vibration'' \<or> sid = ''frying''
                        then started else Returns False) of
                    Returns success \<Rightarrow>
                      if success then (True, set_status sid RUNNING m1)
                      else (False, set_error_message sid (Some ''Failed to start'')
                                     (set_status sid ERROR m1))
                  | Raises e \<Rightarrow>
                      (False, set_error_message sid (Some e) (set_status sid ERROR m1)))))"

text \<open>\<open>stop_service\<close>; \<open>stopped\<close> is what the service-specific stop method does at this call.\<close>

definition stop_service :: "string \<Rightarrow> unit outcome \<Rightarrow> 'i ServiceManager \<Rightarrow> 'i ServiceManager" where
  "stop_service sid stopped m =
     (case map_of (services m) sid of
        None \<Rightarrow> m
      | Some service \<Rightarrow>
          if status service = STOPPED then m
          else
            (let m1 = set_status sid STOPPING m in
             case instance service of
               None \<Rightarrow>
                 set_error_message sid (Some ''Service instance not registered'')
                   (set_status sid ERROR m1)
             | Some inst \<Rightarrow>
                 (case (if sid = ''camera'' \<or> sid = ''vibration'' \<or> sid = ''frying''
                        then stopped else Returns ()) of
                    Returns u \<Rightarrow> set_status sid STOPPED m1
                  | Raises e \<Rightarrow> set_error_message sid (Some e) (set_status sid ERROR m1))))"

text \<open>
  \<open>start_all_services\<close> and \<open>stop_all_services\<close>: a loop over the keys; the behaviour of
  each service's method is given per service id.
\<close>

fun start_each :: "string list \<Rightarrow> (string \<Rightarrow> bool outcome) \<Rightarrow> bool \<Rightarrow> 'i ServiceManager \<Rightarrow> bool \<times> 'i ServiceManager" where
  "start_each [] started success m = (success, m)"
| "start_each (sid # sids) started success m =
     (let (ok, m1) = start_service sid (started sid) m
      in start_each sids started (if \<not> ok then False else success) m1)"

definition start_all_services :: "(string \<Rightarrow> bool outcome) \<Rightarrow> 'i ServiceManager \<Rightarrow> bool \<times> 'i ServiceManager" where
  "start_all_services started m = start_each (map fst (services m)) started True m"

fun stop_each :: "string list \<Rightarrow> (string \<Rightarrow> unit outcome) \<Rightarrow> 'i ServiceManager \<Rightarrow> 'i ServiceManager" where
  "stop_each [] stopped m = m"
| "stop_each (sid # sids) stopped m = stop_each sids stopped (stop_service sid (stopped sid) m)"

definition stop_all_services :: "(string \<Rightarrow> unit outcome) \<Rightarrow> 'i ServiceManager \<Rightarrow> 'i ServiceManager" where
  "stop_all_services stopped m = stop_each (map fst (services m)) stopped m"

text \<open>A sequence of operations on the manager, each with what the services do when called.\<close>

datatype 'i operation =
    Register string 'i
  | StartService string "bool outcome"
  | StopService string "unit outcome"
  | StartAll "string \<Rightarrow> bool outcome"
  | StopAll "string \<Rightarrow> unit outcome"

fun apply_operation :: "'i operation \<Rightarrow> 'i ServiceManager \<Rightarrow> 'i ServiceManager" where
  "apply_operation (Register sid inst) m = register_service sid inst m"
| "apply_operation (StartService sid started) m = snd (start_service sid started m)"
| "apply_operation (StopService sid stopped) m = stop_service sid stopped m"
| "apply_operation (StartAll started) m = snd (start_all_services started m)"
| "apply_operation (StopAll stopped) m = stop_all_services stopped m"

definition run_operations :: "'i operation list \<Rightarrow> 'i ServiceManager \<Rightarrow> 'i ServiceManager" where
  "run_operations ops m = foldl (\<lambda>m op. apply_operation op m) m ops"

text \<open>The edges the specification allows, and the edges the code takes.\<close>

fun spec_edge :: "ServiceStatus \<Rightarrow> ServiceStatus \<Rightarrow> bool" where
  "spec_edge STOPPED STARTING = True"
| "spec_edge STARTING RUNNING = True"
| "spec_edge STARTING ERROR = True"
| "spec_edge RUNNING STOPPING = True"
| "spec_edge STOPPING STOPPED = True"
| "spec_edge STOPPING ERROR = True"
| "spec_edge _ _ = False"

fun code_edge :: "ServiceStatus \<Rightarrow> ServiceStatus \<Rightarrow> bool" where
  "code_edge ERROR STARTING = True"
| "code_edge ERROR STOPPING = True"
| "code_edge a b = spec_edge a b"

text \<open>A scheduler as the constructor builds it from the default configuration, for examples.\<close>

definition example_scheduler :: WorkScheduler where
  "example_scheduler = \<lparr>schedule = \<lparr>start_hour = 8, start_minute = 30, end_hour = 19, end_minute = 0,
                       enabled_days = [0, 1, 2, 3, 4]\<rparr>,
          auto_start_enabled = True, auto_stop_enabled = True, is_running = True,
          manual_override = False, services_started = False\<rparr>"

text \<open>
  Between two operations every status is STOPPED, RUNNING or ERROR; every recorded
  transition is an edge of the code.
\<close>

definition settled :: "'i ServiceManager \<Rightarrow> bool" where
  "settled m = (\<forall>k v. map_of (services m) k = Some v \<longrightarrow> status v \<in> {STOPPED, RUNNING, ERROR})"

definition history_ok :: "'i ServiceManager \<Rightarrow> bool" where
  "history_ok m = (\<forall>sid a b. (sid, a, b) \<in> set (history m) \<longrightarrow> code_edge a b)"

text \<open>A start that fails, then a second start of the same service.\<close>

definition retry_after_error :: "unit operation list" where
  "retry_after_error =
     [Register ''camera'' (), StartService ''camera'' (Returns False),
      StartService ''camera'' (Returns True)]"

section \<open>Detection gate (src/autostart\_autodown/JETSON1\_INTEGRATED.py)\<close>

text \<open>
  The module-level configuration the gate reads.  \<open>FORCE_MODE\<close> is \<open>None\<close> for the
  configured mode \<open>auto\<close>, else the configured string.  Wall-clock instants
  (\<open>datetime.now()\<close>, naive local time) and monotonic instants (\<open>time.monotonic()\<close>) are
  real numbers of seconds, wall-clock ones counted from a local midnight;
  \<open>timedelta(minutes = n)\<close> is \<open>n * 60\<close> seconds.
\<close>

record config =
  FORCE_MODE :: "string option"
  DAY_START :: dt_time
  DAY_END :: dt_time
  DETECTION_HOLD_SEC :: real
  NIGHT_CHECK_MINUTES :: real
  MOTION_MIN_AREA :: real
  SAVE_COOLDOWN_SEC :: real

definition WARMUP_FRAMES :: nat where
  "WARMUP_FRAMES = 30"

text \<open>
  What the two detectors, both outside the model, say about a frame: whether YOLO returns
  a box labelled \<open>person\<close>, and the areas of the contours that background subtraction
  finds.  A detector that is not run on a frame does not get to say it.
\<close>

record frame =
  person :: bool
  motion_areas :: "real list"

text \<open>
  One firing of \<open>update_auto_system\<close>: the frame read from the camera (\<open>None\<close> when the
  capture or the model is missing or the read fails) and the two clock readings.
\<close>

record tick =
  t_frame :: "frame option"
  t_now :: real
  t_mono :: real

text \<open>The auto-start/down state of \<open>IntegratedMonitorApp\<close> (lines 124-133).\<close>

record app_state =
  on_triggered :: bool
  det_hold_start :: "real option"
  night_check_active :: bool
  night_no_person_deadline :: "real option"
  off_triggered_once :: bool
  prev_daytime :: "bool option"
  last_snapshot_tick :: "real option"
  frame_idx :: nat
  yolo_frame_skip :: nat

definition init_state :: app_state where
  "init_state =
     \<lparr>on_triggered = False, det_hold_start = None, night_check_active = False,
      night_no_person_deadline = None, off_triggered_once = False, prev_daytime = None,
      last_snapshot_tick = None, frame_idx = 0, yolo_frame_skip = 0\<rparr>"

text \<open>
  The actions of the gate: \<open>publish_mqtt("ON")\<close>, \<open>publish_mqtt("OFF")\<close> and
  \<open>save_snapshot\<close>.
\<close>

datatype action = PowerOn | PowerOff | SaveSnapshot

text \<open>\<open>now.replace(hour = h, minute = m, second = 0, microsecond = 0)\<close>.\<close>

definition replace_hm :: "real \<Rightarrow> dt_time \<Rightarrow> real" where
  "replace_hm now t = of_int (\<lfloor>now / 86400\<rfloor> * 86400 + hour t * 3600 + minute t * 60)"

definition is_daytime_mode :: "config \<Rightarrow> real \<Rightarrow> bool" where
  "is_daytime_mode cfg now =
     (if FORCE_MODE cfg = Some ''day'' then True
      else if FORCE_MODE cfg = Some ''night'' then False
      else (let today_start = replace_hm now (DAY_START cfg);
                today_end = replace_hm now (DAY_END cfg)
            in today_start \<le> now \<and> now \<le> today_end))"

definition process_day_mode :: "config \<Rightarrow> frame \<Rightarrow> real \<Rightarrow> app_state \<Rightarrow> app_state \<times> action list" where
  "process_day_mode cfg f now s =
     (let s1 = s\<lparr>yolo_frame_skip := yolo_frame_skip s + 1\<rparr> in
      if yolo_frame_skip s1 < 3 then (s1, [])
      else
        (let s2 = s1\<lparr>yolo_frame_skip := 0\<rparr>; detected = person f in
         if detected then
           (case det_hold_start s2 of
              None \<Rightarrow> (s2\<lparr>det_hold_start := Some now\<rparr>, [])
            | Some hold_start \<Rightarrow>
                (let hold_sec = now - hold_start in
                 if hold_sec \<ge> DETECTION_HOLD_SEC cfg \<and> \<not> on_triggered s2
                 then (s2\<lparr>on_triggered := True\<rparr>, [PowerOn])
                 else (s2, [])))
         else (s2\<lparr>det_hold_start := None\<rparr>, [])))"

definition process_night_mode ::
  "config \<Rightarrow> frame \<Rightarrow> real \<Rightarrow> real \<Rightarrow> app_state \<Rightarrow> app_state \<times> action list" where
  "process_night_mode cfg f now now_tick s =
     (let s1 = s\<lparr>frame_idx := frame_idx s + 1\<rparr> in
      if night_check_active s1 then
        (let detected = person f;
             s2 = (if detected
                   then s1\<lparr>night_no_person_deadline := Some (now + NIGHT_CHECK_MINUTES cfg * 60)\<rparr>
                   else s1)
         in case night_no_person_deadline s2 of
              None \<Rightarrow> (s2, [])
            | Some deadline \<Rightarrow>
                if now \<ge> deadline then
                  (if \<not> off_triggered_once s2
                   then (s2\<lparr>off_triggered_once := True, night_check_active := False,
                             night_no_person_deadline := None\<rparr>, [PowerOff])
                   else (s2\<lparr>night_check_active := False, night_no_person_deadline := None\<rparr>, []))
                else (s2, []))
      else if frame_idx s1 > WARMUP_FRAMES then
        (let motion = list_ex (\<lambda>area. area \<ge> MOTION_MIN_AREA cfg) (motion_areas f) in
         if motion then
           (let can_save = (case last_snapshot_tick s1 of
                              None \<Rightarrow> True
                            | Some last_tick \<Rightarrow> now_tick - last_tick \<ge> SAVE_COOLDOWN_SEC cfg)
            in if can_save then (s1\<lparr>last_snapshot_tick := Some now_tick\<rparr>, [SaveSnapshot])
               else (s1, []))
         else (s1, []))
      else (s1, []))"

text \<open>
  The three blocks of \<open>update_auto_system\<close> that handle the mode (first-time
  initialisation, Day to Night, Night to Day) and the assignment to \<open>prev_daytime\<close>.
\<close>

definition mode_transitions :: "config \<Rightarrow> real \<Rightarrow> bool \<Rightarrow> app_state \<Rightarrow> app_state" where
  "mode_transitions cfg now daytime s =
     (let s1 = (if prev_daytime s = None then
                  (if daytime then s\<lparr>prev_daytime := Some daytime\<rparr>
                   else s\<lparr>prev_daytime := Some daytime, night_check_active := True,
                          night_no_person_deadline := Some (now + NIGHT_CHECK_MINUTES cfg * 60)\<rparr>)
                else s);
          s2 = (if prev_daytime s1 = Some True \<and> \<not> daytime then
                  s1\<lparr>night_check_active := True,
                     night_no_person_deadline := Some (now + NIGHT_CHECK_MINUTES cfg * 60),
                     det_hold_start := None, off_triggered_once := False\<rparr>
                else s1);
          s3 = (if prev_daytime s2 = Some False \<and> daytime then
                  s2\<lparr>on_triggered := False, det_hold_start := None, night_check_active := False,
                     night_no_person_deadline := None, off_triggered_once := False\<rparr>
                else s2)
      in s3\<lparr>prev_daytime := Some daytime\<rparr>)"

definition update_auto_system :: "config \<Rightarrow> app_state \<Rightarrow> tick \<Rightarrow> app_state \<times> action list" where
  "update_auto_system cfg s tk =
     (case t_frame tk of
        None \<Rightarrow> (s, [])
      | Some f \<Rightarrow>
          (let now = t_now tk; daytime = is_daytime_mode cfg now;
               s1 = mode_transitions cfg now daytime s
           in if daytime then process_day_mode cfg f now s1
              else process_night_mode cfg f now (t_mono tk) s1))"

text \<open>
  Observing a run.  Each firing is recorded as an event: what kind of tick it was (no
  frame; a day-mode frame on which the detector is skipped; a day-mode frame on which the
  detector runs, with its answer; a night-mode frame), the wall-clock reading and the
  actions emitted.
\<close>

datatype tick_kind = NoFrame | DaySkipped | DayDetect bool | NightFrame

record event =
  ev_kind :: tick_kind
  ev_now :: real
  ev_actions :: "action list"

definition kind_of :: "config \<Rightarrow> app_state \<Rightarrow> tick \<Rightarrow> tick_kind" where
  "kind_of cfg s tk =
     (case t_frame tk of
        None \<Rightarrow> NoFrame
      | Some f \<Rightarrow>
          if is_daytime_mode cfg (t_now tk)
          then (if yolo_frame_skip s + 1 < 3 then DaySkipped else DayDetect (person f))
          else NightFrame)"

definition event_of :: "config \<Rightarrow> app_state \<Rightarrow> tick \<Rightarrow> event" where
  "event_of cfg s tk =
     \<lparr>ev_kind = kind_of cfg s tk, ev_now = t_now tk,
      ev_actions = snd (update_auto_system cfg s tk)\<rparr>"

fun run_state :: "config \<Rightarrow> app_state \<Rightarrow> tick list \<Rightarrow> app_state" where
  "run_state cfg s [] = s"
| "run_state cfg s (tk # tks) = run_state cfg (fst (update_auto_system cfg s tk)) tks"

fun run_trace :: "config \<Rightarrow> app_state \<Rightarrow> tick list \<Rightarrow> event list" where
  "run_trace cfg s [] = []"
| "run_trace cfg s (tk # tks) =
     event_of cfg s tk # run_trace cfg (fst (update_auto_system cfg s tk)) tks"

definition actions_of :: "event list \<Rightarrow> action list" where
  "actions_of tr = concat (map ev_actions tr)"

text \<open>An event that leaves a running hold running.\<close>

definition keeps_hold :: "event \<Rightarrow> bool" where
  "keeps_hold e = (ev_kind e = NoFrame \<or> ev_kind e = DaySkipped \<or> ev_kind e = DayDetect True)"

text \<open>Ticks of one Day interval, and of one Night interval: every frame is of that mode.\<close>

definition day_ticks :: "config \<Rightarrow> tick list \<Rightarrow> bool" where
  "day_ticks cfg tks = list_all (\<lambda>tk. t_frame tk = None \<or> is_daytime_mode cfg (t_now tk)) tks"

definition night_ticks :: "config \<Rightarrow> tick list \<Rightarrow> bool" where
  "night_ticks cfg tks = list_all (\<lambda>tk. t_frame tk = None \<or> \<not> is_daytime_mode cfg (t_now tk)) tks"

text \<open>
  How many more PowerOn (PowerOff) actions a state can emit while the frames stay in day
  (night) mode.
\<close>

definition day_budget :: "app_state \<Rightarrow> nat" where
  "day_budget s = (if on_triggered s \<and> prev_daytime s \<noteq> Some False then 0 else 1)"

definition night_budget :: "app_state \<Rightarrow> nat" where
  "night_budget s = (if prev_daytime s = Some False \<and> \<not> night_check_active s then 0 else 1)"

text \<open>
  \<open>held_since t tr\<close>: in the trace \<open>tr\<close> the detector ran on a day-mode frame at time
  \<open>t\<close> and saw a person, and no later event ended the hold.  \<open>hold_inv\<close> ties the hold
  timer of a state to the trace that led to it.
\<close>

definition held_since :: "real \<Rightarrow> event list \<Rightarrow> bool" where
  "held_since t tr =
     (\<exists>pre ej mid. tr = pre @ ej # mid \<and> ev_kind ej = DayDetect True \<and> ev_now ej = t \<and>
                    list_all keeps_hold mid)"

definition hold_inv :: "app_state \<Rightarrow> event list \<Rightarrow> bool" where
  "hold_inv s tr =
     ((prev_daytime s \<noteq> Some True \<longrightarrow> det_hold_start s = None) \<and>
      (\<forall>t. det_hold_start s = Some t \<longrightarrow> held_since t tr))"

text \<open>
  Example inputs: day window 08:30-19:00, a hold of 5 seconds, a night check of 10 minutes;
  day-mode frames one second apart from 09:00:00 on.
\<close>

definition example_config :: config where
  "example_config =
     \<lparr>FORCE_MODE = None, DAY_START = hm 8 30, DAY_END = hm 19 0, DETECTION_HOLD_SEC = 5,
      NIGHT_CHECK_MINUTES = 10, MOTION_MIN_AREA = 1500, SAVE_COOLDOWN_SEC = 10\<rparr>"

definition day_frame :: "bool \<Rightarrow> real \<Rightarrow> tick" where
  "day_frame p i = \<lparr>t_frame = Some \<lparr>person = p, motion_areas = []\<rparr>, t_now = 32400 + i, t_mono = i\<rparr>"

definition steady_ticks :: "tick list" where
  "steady_ticks = map (day_frame True) [0, 1, 2, 3, 4, 5, 6, 7, 8]"

definition interrupted_ticks :: "tick list" where
  "interrupted_ticks =
     [day_frame True 0, day_frame True 1, day_frame True 2, day_frame False 3, day_frame False 4,
      day_frame True 5, day_frame True 6, day_frame True 7, day_frame True 8]"

definition holding_state :: "nat \<Rightarrow> app_state" where
  "holding_state k = init_state\<lparr>prev_daytime := Some True, det_hold_start := Some 32402,
                                 on_triggered := True, yolo_frame_skip := k\<rparr>"

text \<open>
  What holds of every state a run reaches: in stage 1 of the night (\<open>night_check_active\<close>)
  OFF has not been sent and a deadline is set.
\<close>

definition night_inv :: "app_state \<Rightarrow> bool" where
  "night_inv s =
     ((night_check_active s \<longrightarrow> \<not> off_triggered_once s \<and> night_no_person_deadline s \<noteq> None) \<and>
      (prev_daytime s = None \<longrightarrow> \<not> off_triggered_once s))"

text \<open>
  Night-mode example frames from 20:00:00 on; a first night of 31 frames, then a day frame
  the next morning and three frames of the second night, the last with a moving object.
\<close>

definition night_frame :: "bool \<Rightarrow> real list \<Rightarrow> real \<Rightarrow> tick" where
  "night_frame p areas i =
     \<lparr>t_frame = Some \<lparr>person = p, motion_areas = areas\<rparr>, t_now = 72000 + i, t_mono = i\<rparr>"

definition first_night_ticks :: "tick list" where
  "first_night_ticks = map (\<lambda>i. night_frame False [] (real i)) [1..<32]"

definition second_night_ticks :: "tick list" where
  "second_night_ticks =
     first_night_ticks @
     [day_frame False 86400, night_frame False [] 86400, night_frame False [] 87000,
      night_frame False [2000] 87001]"

text \<open>A state in stage 2 of a night, after OFF has been sent.\<close>

definition stage_two_state :: app_state where
  "stage_two_state = init_state\<lparr>prev_daytime := Some False, off_triggered_once := True, frame_idx := 40\<rparr>"

section \<open>Properties of the work scheduler\<close>

lemma time_le_usec:
  assumes "0 \<le> minute a" "minute a \<le> 59" "0 \<le> second a" "second a \<le> 59"
    "0 \<le> microsecond a" "microsecond a \<le> 999999"
    "0 \<le> minute b" "minute b \<le> 59" "0 \<le> second b" "second b \<le> 59"
    "0 \<le> microsecond b" "microsecond b \<le> 999999"
  shows "time_le a b \<longleftrightarrow> usec_of_day a \<le> usec_of_day b"
  using assms unfolding time_le_def usec_of_day_def by auto

lemma usec_hm: "usec_of_day (hm h m) = (h * 60 + m) * 60000000"
  by (simp add: usec_of_day_def hm_def)

text \<open>
  C4.  With a schedule whose fields are in range and any clock reading, \<open>is_work_time\<close>
  returns (never raises) and its answer is true exactly when today's weekday is enabled and
  the time of day lies in the inclusive window: for start \<le> end, start \<le> now \<le> end; for
  start > end (overnight), now \<ge> start or now \<le> end.  Times are compared as microseconds since
  midnight.  On an enabled weekday the window 08:30-19:00 gives true at 12:00 and false at
  20:00, and the window 22:00-06:00 gives true at 23:30 and at 01:00 and false at 12:00.
\<close>

theorem is_work_time_window:
  assumes "valid_schedule sch" and "valid_clock now"
  shows "is_work_time sch now =
           Inr (weekday now \<in> set (enabled_days sch) \<and>
                (let S = usec_of_day (hm (start_hour sch) (start_minute sch));
                     E = usec_of_day (hm (end_hour sch) (end_minute sch));
                     t = usec_of_day (time_of_day now)
                 in if S \<le> E then S \<le> t \<and> t \<le> E else S \<le> t \<or> t \<le> E))
         \<and> is_work_time \<lparr>start_hour = 8, start_minute = 30, end_hour = 19, end_minute = 0,
               enabled_days = weekday now # ds\<rparr> (now\<lparr>time_of_day := hm 12 0\<rparr>) = Inr True
         \<and> is_work_time \<lparr>start_hour = 8, start_minute = 30, end_hour = 19, end_minute = 0,
               enabled_days = weekday now # ds\<rparr> (now\<lparr>time_of_day := hm 20 0\<rparr>) = Inr False
         \<and> is_work_time \<lparr>start_hour = 22, start_minute = 0, end_hour = 6, end_minute = 0,
               enabled_days = weekday now # ds\<rparr> (now\<lparr>time_of_day := hm 23 30\<rparr>) = Inr True
         \<and> is_work_time \<lparr>start_hour = 22, start_minute = 0, end_hour = 6, end_minute = 0,
               enabled_days = weekday now # ds\<rparr> (now\<lparr>time_of_day := hm 1 0\<rparr>) = Inr True
         \<and> is_work_time \<lparr>start_hour = 22, start_minute = 0, end_hour = 6, end_minute = 0,
               enabled_days = weekday now # ds\<rparr> (now\<lparr>time_of_day := hm 12 0\<rparr>) = Inr False"
proof -
  let ?st = "\<lparr>hour = start_hour sch, minute = start_minute sch, second = 0, microsecond = 0\<rparr>"
  let ?en = "\<lparr>hour = end_hour sch, minute = end_minute sch, second = 0, microsecond = 0\<rparr>"
  have mk: "mk_time (start_hour sch) (start_minute sch) = Inr ?st"
    "mk_time (end_hour sch) (end_minute sch) = Inr ?en"
    using assms(1) by (simp_all add: mk_time_def valid_schedule_def)
  have a: "time_le ?st ?en \<longleftrightarrow> usec_of_day ?st \<le> usec_of_day ?en"
    using assms(1) by (intro time_le_usec) (simp_all add: valid_schedule_def)
  have b: "time_le ?st (time_of_day now) \<longleftrightarrow> usec_of_day ?st \<le> usec_of_day (time_of_day now)"
    using assms by (intro time_le_usec) (simp_all add: valid_schedule_def valid_clock_def)
  have c: "time_le (time_of_day now) ?en \<longleftrightarrow> usec_of_day (time_of_day now) \<le> usec_of_day ?en"
    using assms by (intro time_le_usec) (simp_all add: valid_schedule_def valid_clock_def)
  have general: "is_work_time sch now =
           Inr (weekday now \<in> set (enabled_days sch) \<and>
                (let S = usec_of_day (hm (start_hour sch) (start_minute sch));
                     E = usec_of_day (hm (end_hour sch) (end_minute sch));
                     t = usec_of_day (time_of_day now)
                 in if S \<le> E then S \<le> t \<and> t \<le> E else S \<le> t \<or> t \<le> E))"
    unfolding is_work_time_def Let_def mk sum.case a b c hm_def by simp
  show ?thesis
    unfolding general
    by (simp add: is_work_time_def mk_time_def time_le_def hm_def)
qed

theorem is_work_time_window_witness:
  "valid_schedule \<lparr>start_hour = 8, start_minute = 30, end_hour = 19, end_minute = 0,
                   enabled_days = [0, 1, 2, 3, 4]\<rparr>
   \<and> valid_clock \<lparr>weekday = 2, time_of_day = \<lparr>hour = 19, minute = 0, second = 0, microsecond = 1\<rparr>\<rparr>
   \<and> is_work_time \<lparr>start_hour = 8, start_minute = 30, end_hour = 19, end_minute = 0,
                   enabled_days = [0, 1, 2, 3, 4]\<rparr>
        \<lparr>weekday = 2, time_of_day = \<lparr>hour = 19, minute = 0, second = 0, microsecond = 1\<rparr>\<rparr> = Inr False"
proof -
  have v: "valid_schedule \<lparr>start_hour = 8, start_minute = 30, end_hour = 19, end_minute = 0,
                   enabled_days = [0, 1, 2, 3, 4]\<rparr>"
    by (simp add: valid_schedule_def)
  have c: "valid_clock \<lparr>weekday = 2, time_of_day = \<lparr>hour = 19, minute = 0, second = 0, microsecond = 1\<rparr>\<rparr>"
    by (simp add: valid_clock_def)
  show ?thesis
    using v c is_work_time_window [OF v c, of "[]"]
    by (simp add: usec_of_day_def hm_def)
qed

text \<open>
  C10.  Outside work hours \<open>minutes_until_work_start\<close> returns a number \<open>m\<close> of minutes
  with 1 \<le> m \<le> 24*60 such that the current minute of the day plus \<open>m\<close> is the configured
  start minute modulo one day: the next occurrence of the start time, today's if it is still
  ahead and tomorrow's otherwise.  The enabled weekdays play no part: the same schedule with
  no weekday enabled at all returns the same number.
\<close>

theorem minutes_until_work_start_next_start:
  assumes "valid_schedule sch" and "valid_clock now2" and "is_work_time sch now1 = Inr False"
  shows "\<exists>m. minutes_until_work_start sch now1 now2 = Inr (Some m)
           \<and> 1 \<le> m \<and> m \<le> 24 * 60
           \<and> (hour (time_of_day now2) * 60 + minute (time_of_day now2) + m) mod (24 * 60)
               = start_hour sch * 60 + start_minute sch
           \<and> minutes_until_work_start (sch\<lparr>enabled_days := []\<rparr>) now1 now2 = Inr (Some m)"
proof -
  have nw: "is_work_time (sch\<lparr>enabled_days := []\<rparr>) now1 = Inr False"
    by (simp add: is_work_time_def)
  let ?C = "hour (time_of_day now2) * 60 + minute (time_of_day now2)"
  let ?S = "start_hour sch * 60 + start_minute sch"
  have rC: "0 \<le> ?C" "?C \<le> 1439" using assms(2) by (auto simp: valid_clock_def)
  have rS: "0 \<le> ?S" "?S \<le> 1439" using assms(1) by (auto simp: valid_schedule_def)
  show ?thesis
  proof (cases "?S > ?C")
    case True
    have "(?C + (?S - ?C)) mod (24 * 60) = ?S" using rS by simp
    with True rC rS show ?thesis
      by (simp add: minutes_until_work_start_def assms(3) nw)
  next
    case False
    have "(?C + (24 * 60 - ?C + ?S)) mod (24 * 60) = ?S" using rS by simp
    with False rC rS show ?thesis
      by (simp add: minutes_until_work_start_def assms(3) nw)
  qed
qed

theorem minutes_until_work_start_next_start_witness:
  "valid_schedule \<lparr>start_hour = 8, start_minute = 30, end_hour = 19, end_minute = 0, enabled_days = [0, 1, 2, 3, 4]\<rparr>
   \<and> valid_clock \<lparr>weekday = 5, time_of_day = hm 8 30\<rparr>
   \<and> is_work_time \<lparr>start_hour = 8, start_minute = 30, end_hour = 19, end_minute = 0, enabled_days = [0, 1, 2, 3, 4]\<rparr>
        \<lparr>weekday = 5, time_of_day = hm 8 30\<rparr> = Inr False
   \<and> minutes_until_work_start \<lparr>start_hour = 8, start_minute = 30, end_hour = 19, end_minute = 0, enabled_days = [0, 1, 2, 3, 4]\<rparr>
        \<lparr>weekday = 5, time_of_day = hm 8 30\<rparr> \<lparr>weekday = 5, time_of_day = hm 8 30\<rparr> = Inr (Some 1440)"
proof -
  let ?sch = "\<lparr>start_hour = 8, start_minute = 30, end_hour = 19, end_minute = 0, enabled_days = [0, 1, 2, 3, 4]\<rparr>"
  let ?now = "\<lparr>weekday = 5, time_of_day = hm 8 30\<rparr>"
  have v: "valid_schedule ?sch" by (simp add: valid_schedule_def)
  have c: "valid_clock ?now" by (simp add: valid_clock_def hm_def)
  have w: "is_work_time ?sch ?now = Inr False" by (simp add: is_work_time_def)
  show ?thesis
    using v c w minutes_until_work_start_next_start [OF v c w]
    by (simp add: minutes_until_work_start_def hm_def)
qed

section \<open>Properties of the scheduler loop\<close>

text \<open>
  C5.  On a poll tick with manual override off, at most one callback is invoked and never
  both.  The start callback is invoked exactly when it is work time, the services are not
  started and auto-start is enabled; the stop callback exactly when it is not work time,
  the services are started and auto-stop is enabled.  \<open>services_started\<close> becomes true
  only by a start callback that returns true; when the start callback returns false or
  raises, the scheduler state is unchanged, so the next tick tries again.
\<close>

theorem scheduler_tick_one_action:
  assumes "\<not> manual_override ws"
    and "scheduler_tick ws now start_callback stop_callback = (ws', calls)"
  shows "length calls \<le> 1
       \<and> \<not> (StartCallback \<in> set calls \<and> StopCallback \<in> set calls)
       \<and> (StartCallback \<in> set calls \<longleftrightarrow>
            is_work_time (schedule ws) now = Inr True \<and> \<not> services_started ws \<and> auto_start_enabled ws)
       \<and> (StopCallback \<in> set calls \<longleftrightarrow>
            is_work_time (schedule ws) now = Inr False \<and> services_started ws \<and> auto_stop_enabled ws)
       \<and> (services_started ws' \<and> \<not> services_started ws \<longleftrightarrow>
            StartCallback \<in> set calls \<and> start_callback = Returns True)
       \<and> (StartCallback \<in> set calls \<and> start_callback \<noteq> Returns True \<longrightarrow> ws' = ws)"
proof (cases "is_work_time (schedule ws) now")
  case (Inl e)
  with assms show ?thesis by (auto simp: scheduler_tick_def)
next
  case (Inr w)
  show ?thesis
  proof (cases start_callback)
    case (Returns ok)
    with Inr assms show ?thesis
      by (cases stop_callback) (auto simp: scheduler_tick_def split: if_splits)
  next
    case (Raises e)
    with Inr assms show ?thesis
      by (cases stop_callback) (auto simp: scheduler_tick_def split: if_splits)
  qed
qed

theorem scheduler_tick_one_action_witness:
  "\<not> manual_override example_scheduler
   \<and> scheduler_tick example_scheduler \<lparr>weekday = 0, time_of_day = hm 9 0\<rparr> (Raises ''camera busy'') (Returns ())
       = (example_scheduler, [StartCallback])
   \<and> is_work_time (schedule example_scheduler) \<lparr>weekday = 0, time_of_day = hm 9 0\<rparr> = Inr True
   \<and> \<not> services_started example_scheduler \<and> auto_start_enabled example_scheduler"
proof -
  have a: "\<not> manual_override example_scheduler" by (simp add: example_scheduler_def)
  have b: "scheduler_tick example_scheduler \<lparr>weekday = 0, time_of_day = hm 9 0\<rparr> (Raises ''camera busy'') (Returns ())
       = (example_scheduler, [StartCallback])"
    by (simp add: scheduler_tick_def example_scheduler_def is_work_time_def mk_time_def time_le_def hm_def)
  show ?thesis
    using a b scheduler_tick_one_action [OF a b] by simp
qed

section \<open>Properties of the service manager\<close>

lemma map_of_update_service:
  "map_of (update_service sid f svcs) k =
     (if k = sid then map_option f (map_of svcs k) else map_of svcs k)"
  by (induction svcs) (auto simp: update_service_def)

lemma keys_update_service: "map fst (update_service sid f svcs) = map fst svcs"
  by (induction svcs) (auto simp: update_service_def)

lemma services_set_status:
  "map_of (services (set_status sid st m)) k =
     (if k = sid then map_option (\<lambda>v. v\<lparr>status := st\<rparr>) (map_of (services m) k)
      else map_of (services m) k)"
  by (auto simp: set_status_def map_of_update_service split: option.splits)

lemma history_set_status:
  "history (set_status sid st m) =
     history m @ (case map_of (services m) sid of None \<Rightarrow> [] | Some v \<Rightarrow> [(sid, status v, st)])"
  by (auto simp: set_status_def split: option.splits)

lemma services_set_error_message:
  "map_of (services (set_error_message sid msg m)) k =
     (if k = sid then map_option (\<lambda>v. v\<lparr>error_message := msg\<rparr>) (map_of (services m) k)
      else map_of (services m) k)"
  by (auto simp: set_error_message_def map_of_update_service)

lemma history_set_error_message: "history (set_error_message sid msg m) = history m"
  by (simp add: set_error_message_def)

lemmas manager_simps =
  services_set_status history_set_status services_set_error_message history_set_error_message

lemma start_service_inv:
  assumes "settled m" "history_ok m"
  shows "settled (snd (start_service sid started m)) \<and> history_ok (snd (start_service sid started m))"
proof (cases "map_of (services m) sid")
  case None
  with assms show ?thesis by (simp add: start_service_def)
next
  case (Some service)
  with assms(1) have st: "status service \<in> {STOPPED, RUNNING, ERROR}"
    by (auto simp: settled_def)
  show ?thesis
  proof (cases "status service = RUNNING")
    case True
    with Some assms show ?thesis by (simp add: start_service_def)
  next
    case False
    with st have old: "code_edge (status service) STARTING" by auto
    have "settled (snd (start_service sid started m))"
      using assms(1) Some False unfolding settled_def start_service_def Let_def
      by (auto simp: manager_simps split: option.splits outcome.splits if_splits)
    moreover have "history_ok (snd (start_service sid started m))"
      using assms(2) Some False old unfolding history_ok_def start_service_def Let_def
      by (auto simp: manager_simps split: option.splits outcome.splits if_splits)
    ultimately show ?thesis by simp
  qed
qed

lemma stop_service_inv:
  assumes "settled m" "history_ok m"
  shows "settled (stop_service sid stopped m) \<and> history_ok (stop_service sid stopped m)"
proof (cases "map_of (services m) sid")
  case None
  with assms show ?thesis by (simp add: stop_service_def)
next
  case (Some service)
  with assms(1) have st: "status service \<in> {STOPPED, RUNNING, ERROR}"
    by (auto simp: settled_def)
  show ?thesis
  proof (cases "status service = STOPPED")
    case True
    with Some assms show ?thesis by (simp add: stop_service_def)
  next
    case False
    with st have old: "code_edge (status service) STOPPING" by auto
    have "settled (stop_service sid stopped m)"
      using assms(1) Some False unfolding settled_def stop_service_def Let_def
      by (auto simp: manager_simps split: option.splits outcome.splits if_splits)
    moreover have "history_ok (stop_service sid stopped m)"
      using assms(2) Some False old unfolding history_ok_def stop_service_def Let_def
      by (auto simp: manager_simps split: option.splits outcome.splits if_splits)
    ultimately show ?thesis by simp
  qed
qed

lemma start_each_inv:
  "settled m \<Longrightarrow> history_ok m \<Longrightarrow>
   settled (snd (start_each sids started success m)) \<and> history_ok (snd (start_each sids started success m))"
proof (induction sids arbitrary: success m)
  case Nil
  then show ?case by simp
next
  case (Cons sid sids)
  from start_service_inv [OF Cons.prems, of sid "started sid"]
  show ?case by (auto simp: Cons.IH split: prod.splits)
qed

lemma stop_each_inv:
  "settled m \<Longrightarrow> history_ok m \<Longrightarrow>
   settled (stop_each sids stopped m) \<and> history_ok (stop_each sids stopped m)"
proof (induction sids arbitrary: m)
  case Nil
  then show ?case by simp
next
  case (Cons sid sids)
  from stop_service_inv [OF Cons.prems, of sid "stopped sid"]
  show ?case by (auto simp: Cons.IH)
qed

lemma register_service_inv:
  assumes "settled m" "history_ok m"
  shows "settled (register_service sid inst m) \<and> history_ok (register_service sid inst m)"
proof -
  have "status v \<in> {STOPPED, RUNNING, ERROR}"
    if "map_of (services (register_service sid inst m)) k = Some v" for k v
  proof -
    from that obtain w where "map_of (services m) k = Some w" "status v = status w"
      by (auto simp: register_service_def map_of_update_service split: if_splits)
    with assms(1) show ?thesis unfolding settled_def by metis
  qed
  moreover have "history (register_service sid inst m) = history m"
    by (simp add: register_service_def)
  ultimately show ?thesis using assms(2) unfolding settled_def history_ok_def by simp
qed

lemma apply_operation_inv:
  assumes "settled m" "history_ok m"
  shows "settled (apply_operation op m) \<and> history_ok (apply_operation op m)"
proof (cases op)
  case (Register sid inst)
  then show ?thesis using register_service_inv [OF assms] by simp
next
  case (StartService sid started)
  then show ?thesis using start_service_inv [OF assms] by simp
next
  case (StopService sid stopped)
  then show ?thesis using stop_service_inv [OF assms] by simp
next
  case (StartAll started)
  then show ?thesis using start_each_inv [OF assms] by (simp add: start_all_services_def)
next
  case (StopAll stopped)
  then show ?thesis using stop_each_inv [OF assms] by (simp add: stop_all_services_def)
qed

lemma run_operations_inv:
  "settled m \<Longrightarrow> history_ok m \<Longrightarrow>
   settled (run_operations ops m) \<and> history_ok (run_operations ops m)"
proof (induction ops arbitrary: m)
  case Nil
  then show ?case by (simp add: run_operations_def)
next
  case (Cons op ops)
  from apply_operation_inv [OF Cons.prems, of op] Cons.IH [of "apply_operation op m"]
  show ?case by (simp add: run_operations_def)
qed

lemma init_manager_inv: "settled init_manager \<and> history_ok init_manager"
  by (simp add: settled_def history_ok_def init_manager_def)


lemma history_retry:
  "history (run_operations retry_after_error init_manager) =
     [(''camera'', STOPPED, STARTING), (''camera'', STARTING, ERROR),
      (''camera'', ERROR, STARTING), (''camera'', STARTING, RUNNING)]"
  by (simp add: retry_after_error_def run_operations_def init_manager_def register_service_def
      start_service_def set_status_def set_error_message_def update_service_def)



section \<open>Properties of the detection gate\<close>

lemma update_no_frame: "t_frame tk = None \<Longrightarrow> update_auto_system cfg s tk = (s, [])"
  by (simp add: update_auto_system_def)

lemma update_day:
  "t_frame tk = Some f \<Longrightarrow> is_daytime_mode cfg (t_now tk) \<Longrightarrow>
   update_auto_system cfg s tk = process_day_mode cfg f (t_now tk) (mode_transitions cfg (t_now tk) True s)"
  by (simp add: update_auto_system_def Let_def)

lemma update_night:
  "t_frame tk = Some f \<Longrightarrow> \<not> is_daytime_mode cfg (t_now tk) \<Longrightarrow>
   update_auto_system cfg s tk =
     process_night_mode cfg f (t_now tk) (t_mono tk) (mode_transitions cfg (t_now tk) False s)"
  by (simp add: update_auto_system_def Let_def)

lemma mode_transitions_fields:
  "prev_daytime (mode_transitions cfg now d s) = Some d"
  "on_triggered (mode_transitions cfg now d s) =
     (if d \<and> prev_daytime s = Some False then False else on_triggered s)"
  "det_hold_start (mode_transitions cfg now d s) =
     (if prev_daytime s = Some (\<not> d) then None else det_hold_start s)"
  "night_check_active (mode_transitions cfg now d s) =
     (if d then (if prev_daytime s = Some False then False else night_check_active s)
      else (if prev_daytime s = Some False then night_check_active s else True))"
  "night_no_person_deadline (mode_transitions cfg now d s) =
     (if d then (if prev_daytime s = Some False then None else night_no_person_deadline s)
      else (if prev_daytime s = Some False then night_no_person_deadline s
            else Some (now + NIGHT_CHECK_MINUTES cfg * 60)))"
  "off_triggered_once (mode_transitions cfg now d s) =
     (if prev_daytime s = Some (\<not> d) then False else off_triggered_once s)"
  "frame_idx (mode_transitions cfg now d s) = frame_idx s"
  "yolo_frame_skip (mode_transitions cfg now d s) = yolo_frame_skip s"
  "last_snapshot_tick (mode_transitions cfg now d s) = last_snapshot_tick s"
  by (cases "prev_daytime s"; cases d; simp add: mode_transitions_def Let_def)+

lemma run_state_append:
  "run_state cfg s (xs @ ys) = run_state cfg (run_state cfg s xs) ys"
  by (induction xs arbitrary: s) auto

lemma run_trace_append:
  "run_trace cfg s (xs @ ys) = run_trace cfg s xs @ run_trace cfg (run_state cfg s xs) ys"
  by (induction xs arbitrary: s) auto

lemma length_run_trace: "length (run_trace cfg s tks) = length tks"
  by (induction tks arbitrary: s) auto

lemma actions_of_Cons: "actions_of (e # tr) = ev_actions e @ actions_of tr"
  by (simp add: actions_of_def)

lemma day_step_budget:
  assumes "t_frame tk = None \<or> is_daytime_mode cfg (t_now tk)"
  shows "count_list (snd (update_auto_system cfg s tk)) PowerOn
           + day_budget (fst (update_auto_system cfg s tk)) \<le> day_budget s"
proof (cases "t_frame tk")
  case None
  then show ?thesis by (simp add: update_no_frame)
next
  case (Some f)
  with assms have d: "is_daytime_mode cfg (t_now tk)" by simp
  show ?thesis
    unfolding update_day [OF Some d]
    by (simp add: process_day_mode_def mode_transitions_fields day_budget_def Let_def
        split: option.splits)
qed

lemma day_run_budget:
  "day_ticks cfg tks \<Longrightarrow> count_list (actions_of (run_trace cfg s tks)) PowerOn \<le> day_budget s"
proof (induction tks arbitrary: s)
  case Nil
  then show ?case by (simp add: actions_of_def)
next
  case (Cons tk tks)
  from Cons.prems have h: "t_frame tk = None \<or> is_daytime_mode cfg (t_now tk)"
    and r: "day_ticks cfg tks" by (simp_all add: day_ticks_def)
  from Cons.IH [OF r, of "fst (update_auto_system cfg s tk)"] day_step_budget [OF h, of s]
  show ?case by (simp add: actions_of_Cons event_of_def)
qed

lemma night_step_budget:
  assumes "t_frame tk = None \<or> \<not> is_daytime_mode cfg (t_now tk)"
  shows "count_list (snd (update_auto_system cfg s tk)) PowerOff
           + night_budget (fst (update_auto_system cfg s tk)) \<le> night_budget s"
proof (cases "t_frame tk")
  case None
  then show ?thesis by (simp add: update_no_frame)
next
  case (Some f)
  with assms have d: "\<not> is_daytime_mode cfg (t_now tk)" by simp
  show ?thesis
    unfolding update_night [OF Some d]
    by (simp add: process_night_mode_def mode_transitions_fields night_budget_def Let_def
        split: option.splits)
qed

lemma night_run_budget:
  "night_ticks cfg tks \<Longrightarrow> count_list (actions_of (run_trace cfg s tks)) PowerOff \<le> night_budget s"
proof (induction tks arbitrary: s)
  case Nil
  then show ?case by (simp add: actions_of_def)
next
  case (Cons tk tks)
  from Cons.prems have h: "t_frame tk = None \<or> \<not> is_daytime_mode cfg (t_now tk)"
    and r: "night_ticks cfg tks" by (simp_all add: night_ticks_def)
  from Cons.IH [OF r, of "fst (update_auto_system cfg s tk)"] night_step_budget [OF h, of s]
  show ?case by (simp add: actions_of_Cons event_of_def)
qed

lemma held_since_keep: "held_since t tr \<Longrightarrow> keeps_hold e \<Longrightarrow> held_since t (tr @ [e])"
proof -
  assume "held_since t tr" and k: "keeps_hold e"
  then obtain pre ej mid where h: "tr = pre @ ej # mid" "ev_kind ej = DayDetect True"
    "ev_now ej = t" "list_all keeps_hold mid"
    unfolding held_since_def by blast
  from h(1) have "tr @ [e] = pre @ ej # (mid @ [e])" by simp
  moreover from h(4) k have "list_all keeps_hold (mid @ [e])" by simp
  ultimately show ?thesis unfolding held_since_def using h(2,3) by blast
qed

lemma held_since_start: "ev_kind e = DayDetect True \<Longrightarrow> ev_now e = t \<Longrightarrow> held_since t (tr @ [e])"
proof -
  assume "ev_kind e = DayDetect True" "ev_now e = t"
  moreover have "tr @ [e] = tr @ e # []" "list_all keeps_hold []" by simp_all
  ultimately show ?thesis unfolding held_since_def by blast
qed

lemma kind_no_frame: "t_frame tk = None \<Longrightarrow> kind_of cfg s tk = NoFrame"
  by (simp add: kind_of_def)

lemma kind_day:
  "t_frame tk = Some f \<Longrightarrow> is_daytime_mode cfg (t_now tk) \<Longrightarrow>
   kind_of cfg s tk = (if yolo_frame_skip s + 1 < 3 then DaySkipped else DayDetect (person f))"
  by (simp add: kind_of_def)

lemma kind_night:
  "t_frame tk = Some f \<Longrightarrow> \<not> is_daytime_mode cfg (t_now tk) \<Longrightarrow> kind_of cfg s tk = NightFrame"
  by (simp add: kind_of_def)

lemma step_hold_reset:
  assumes "prev_daytime s \<noteq> Some True \<longrightarrow> det_hold_start s = None"
  shows "prev_daytime (fst (update_auto_system cfg s tk)) \<noteq> Some True \<longrightarrow>
         det_hold_start (fst (update_auto_system cfg s tk)) = None"
proof (cases "t_frame tk")
  case None
  with assms show ?thesis by (simp add: update_no_frame)
next
  case (Some f)
  show ?thesis
  proof (cases "is_daytime_mode cfg (t_now tk)")
    case True
    show ?thesis unfolding update_day [OF Some True]
      by (simp add: process_day_mode_def mode_transitions_fields Let_def split: option.splits)
  next
    case False
    show ?thesis using assms unfolding update_night [OF Some False]
      by (simp add: process_night_mode_def mode_transitions_fields Let_def split: option.splits)
  qed
qed

lemma step_hold_origin:
  assumes "prev_daytime s \<noteq> Some True \<longrightarrow> det_hold_start s = None"
    and "det_hold_start (fst (update_auto_system cfg s tk)) = Some t"
  shows "(det_hold_start s = Some t \<and> keeps_hold (event_of cfg s tk))
       \<or> (ev_kind (event_of cfg s tk) = DayDetect True \<and> ev_now (event_of cfg s tk) = t)"
proof (cases "t_frame tk")
  case None
  with assms show ?thesis
    by (simp add: update_no_frame event_of_def keeps_hold_def kind_no_frame)
next
  case (Some f)
  show ?thesis
  proof (cases "is_daytime_mode cfg (t_now tk)")
    case True
    show ?thesis using assms(2) unfolding update_day [OF Some True]
      by (auto simp: process_day_mode_def mode_transitions_fields Let_def event_of_def
          keeps_hold_def kind_day [OF Some True] split: option.splits if_splits)
  next
    case False
    show ?thesis using assms unfolding update_night [OF Some False]
      by (auto simp: process_night_mode_def mode_transitions_fields Let_def
          split: option.splits if_splits)
  qed
qed

lemma step_power_on:
  assumes "PowerOn \<in> set (snd (update_auto_system cfg s tk))"
  shows "kind_of cfg s tk = DayDetect True \<and>
         (\<exists>t. det_hold_start s = Some t \<and> t_now tk - t \<ge> DETECTION_HOLD_SEC cfg) \<and>
         \<not> on_triggered (mode_transitions cfg (t_now tk) True s) \<and>
         on_triggered (fst (update_auto_system cfg s tk))"
proof (cases "t_frame tk")
  case None
  with assms show ?thesis by (simp add: update_no_frame)
next
  case (Some f)
  show ?thesis
  proof (cases "is_daytime_mode cfg (t_now tk)")
    case True
    show ?thesis using assms unfolding update_day [OF Some True]
      by (auto simp: process_day_mode_def mode_transitions_fields Let_def
          kind_day [OF Some True] split: option.splits if_splits)
  next
    case False
    show ?thesis using assms unfolding update_night [OF Some False]
      by (auto simp: process_night_mode_def mode_transitions_fields Let_def
          split: option.splits if_splits)
  qed
qed

lemma hold_inv_step:
  assumes "hold_inv s tr"
  shows "hold_inv (fst (update_auto_system cfg s tk)) (tr @ [event_of cfg s tk])"
proof -
  from assms have a: "prev_daytime s \<noteq> Some True \<longrightarrow> det_hold_start s = None"
    and b: "\<And>t. det_hold_start s = Some t \<Longrightarrow> held_since t tr"
    by (simp_all add: hold_inv_def)
  have "held_since t (tr @ [event_of cfg s tk])"
    if "det_hold_start (fst (update_auto_system cfg s tk)) = Some t" for t
    using step_hold_origin [OF a that] b held_since_keep held_since_start by blast
  with step_hold_reset [OF a] show ?thesis by (simp add: hold_inv_def)
qed

lemma hold_inv_run:
  "hold_inv s tr \<Longrightarrow> hold_inv (run_state cfg s tks) (tr @ run_trace cfg s tks)"
proof (induction tks arbitrary: s tr)
  case Nil
  then show ?case by simp
next
  case (Cons tk tks)
  from Cons.IH [OF hold_inv_step [OF Cons.prems, of cfg tk]]
  show ?case by simp
qed

lemma hold_inv_init: "hold_inv init_state []"
  by (simp add: hold_inv_def init_state_def)

lemma trace_split:
  assumes "run_trace cfg s tks = pre @ e # post"
  shows "\<exists>tks1 tk tks2. tks = tks1 @ tk # tks2 \<and> pre = run_trace cfg s tks1 \<and>
           e = event_of cfg (run_state cfg s tks1) tk"
proof -
  let ?n = "length pre"
  have len: "?n < length tks"
    using assms length_run_trace [of cfg s tks] by simp
  then have split: "tks = take ?n tks @ tks ! ?n # drop (Suc ?n) tks"
    by (simp add: id_take_nth_drop)
  have "run_trace cfg s tks =
          run_trace cfg s (take ?n tks) @
          event_of cfg (run_state cfg s (take ?n tks)) (tks ! ?n) #
          run_trace cfg (fst (update_auto_system cfg (run_state cfg s (take ?n tks)) (tks ! ?n)))
            (drop (Suc ?n) tks)"
    by (subst split) (simp add: run_trace_append)
  with assms len have "pre = run_trace cfg s (take ?n tks) \<and>
      e = event_of cfg (run_state cfg s (take ?n tks)) (tks ! ?n)"
    by (simp add: append_eq_append_conv length_run_trace)
  with split show ?thesis by blast
qed

lemma power_on_after_hold:
  assumes "run_trace cfg init_state tks = pre @ e # post"
    and "PowerOn \<in> set (ev_actions e)"
  shows "ev_kind e = DayDetect True \<and>
         (\<exists>pre' ej mid. pre = pre' @ ej # mid \<and> ev_kind ej = DayDetect True \<and>
            list_all keeps_hold mid \<and> ev_now e - ev_now ej \<ge> DETECTION_HOLD_SEC cfg)"
proof -
  from trace_split [OF assms(1)] obtain tks1 tk tks2 where
    pre: "pre = run_trace cfg init_state tks1" and
    e: "e = event_of cfg (run_state cfg init_state tks1) tk" by blast
  let ?s = "run_state cfg init_state tks1"
  from assms(2) e have "PowerOn \<in> set (snd (update_auto_system cfg ?s tk))"
    by (simp add: event_of_def)
  from step_power_on [OF this] obtain t where
    k: "kind_of cfg ?s tk = DayDetect True" and
    t: "det_hold_start ?s = Some t" "t_now tk - t \<ge> DETECTION_HOLD_SEC cfg" by blast
  from hold_inv_run [OF hold_inv_init, of cfg tks1] t(1) pre have "held_since t pre"
    by (simp add: hold_inv_def)
  with k t(2) e show ?thesis
    unfolding held_since_def by (auto simp: event_of_def)
qed

lemmas gate_eval =
  event_of_def kind_of_def update_auto_system_def mode_transitions_def process_day_mode_def
  process_night_mode_def is_daytime_mode_def replace_hm_def example_config_def hm_def
  init_state_def day_frame_def Let_def WARMUP_FRAMES_def

lemma steady_trace:
  "run_trace example_config init_state steady_ticks =
     [\<lparr>ev_kind = DaySkipped, ev_now = 32400, ev_actions = []\<rparr>,
      \<lparr>ev_kind = DaySkipped, ev_now = 32401, ev_actions = []\<rparr>,
      \<lparr>ev_kind = DayDetect True, ev_now = 32402, ev_actions = []\<rparr>,
      \<lparr>ev_kind = DaySkipped, ev_now = 32403, ev_actions = []\<rparr>,
      \<lparr>ev_kind = DaySkipped, ev_now = 32404, ev_actions = []\<rparr>,
      \<lparr>ev_kind = DayDetect True, ev_now = 32405, ev_actions = []\<rparr>,
      \<lparr>ev_kind = DaySkipped, ev_now = 32406, ev_actions = []\<rparr>,
      \<lparr>ev_kind = DaySkipped, ev_now = 32407, ev_actions = []\<rparr>,
      \<lparr>ev_kind = DayDetect True, ev_now = 32408, ev_actions = [PowerOn]\<rparr>]"
  by (simp add: steady_ticks_def gate_eval)

lemma steady_day: "day_ticks example_config steady_ticks"
  by (simp add: day_ticks_def steady_ticks_def gate_eval)



lemma interrupted_trace:
  "run_trace example_config init_state interrupted_ticks =
     [\<lparr>ev_kind = DaySkipped, ev_now = 32400, ev_actions = []\<rparr>,
      \<lparr>ev_kind = DaySkipped, ev_now = 32401, ev_actions = []\<rparr>,
      \<lparr>ev_kind = DayDetect True, ev_now = 32402, ev_actions = []\<rparr>,
      \<lparr>ev_kind = DaySkipped, ev_now = 32403, ev_actions = []\<rparr>,
      \<lparr>ev_kind = DaySkipped, ev_now = 32404, ev_actions = []\<rparr>,
      \<lparr>ev_kind = DayDetect True, ev_now = 32405, ev_actions = []\<rparr>,
      \<lparr>ev_kind = DaySkipped, ev_now = 32406, ev_actions = []\<rparr>,
      \<lparr>ev_kind = DaySkipped, ev_now = 32407, ev_actions = []\<rparr>,
      \<lparr>ev_kind = DayDetect True, ev_now = 32408, ev_actions = [PowerOn]\<rparr>]"
  by (simp add: interrupted_ticks_def gate_eval)


lemma night_inv_step: "night_inv s \<Longrightarrow> night_inv (fst (update_auto_system cfg s tk))"
proof (cases "t_frame tk")
  case None
  assume "night_inv s"
  with None show ?thesis by (simp add: update_no_frame)
next
  case (Some f)
  assume inv: "night_inv s"
  show ?thesis
  proof (cases "is_daytime_mode cfg (t_now tk)")
    case True
    show ?thesis using inv unfolding update_day [OF Some True] night_inv_def
      by (cases "prev_daytime s")
         (auto simp: process_day_mode_def mode_transitions_fields Let_def split: option.splits)
  next
    case False
    show ?thesis using inv unfolding update_night [OF Some False] night_inv_def
      by (cases "prev_daytime s")
         (auto simp: process_night_mode_def mode_transitions_fields Let_def split: option.splits)
  qed
qed

lemma night_inv_run: "night_inv s \<Longrightarrow> night_inv (run_state cfg s tks)"
  by (induction tks arbitrary: s) (simp_all add: night_inv_step)

lemma night_inv_init: "night_inv init_state"
  by (simp add: night_inv_def init_state_def)

lemma stage_two_stays:
  "night_ticks cfg tks \<Longrightarrow> prev_daytime s = Some False \<Longrightarrow> \<not> night_check_active s \<Longrightarrow>
   prev_daytime (run_state cfg s tks) = Some False \<and> \<not> night_check_active (run_state cfg s tks)"
proof (induction tks arbitrary: s)
  case Nil
  then show ?case by simp
next
  case (Cons tk tks)
  from Cons.prems(1) have h: "t_frame tk = None \<or> \<not> is_daytime_mode cfg (t_now tk)"
    and r: "night_ticks cfg tks" by (simp_all add: night_ticks_def)
  have "prev_daytime (fst (update_auto_system cfg s tk)) = Some False \<and>
        \<not> night_check_active (fst (update_auto_system cfg s tk))"
  proof (cases "t_frame tk")
    case None
    with Cons.prems show ?thesis by (simp add: update_no_frame)
  next
    case (Some f)
    with h have d: "\<not> is_daytime_mode cfg (t_now tk)" by simp
    show ?thesis using Cons.prems(2,3) unfolding update_night [OF Some d]
      by (simp add: process_night_mode_def mode_transitions_fields Let_def split: option.splits)
  qed
  with Cons.IH [OF r] show ?case by simp
qed


lemmas night_eval = gate_eval night_frame_def

lemma stage_one_state:
  "run_state example_config init_state [night_frame False [] 0] =
     init_state\<lparr>prev_daytime := Some False, night_check_active := True,
                night_no_person_deadline := Some 72600, frame_idx := 1\<rparr>"
  by (simp add: night_eval)


lemma step_frame_idx:
  "frame_idx (fst (update_auto_system cfg s tk)) =
     frame_idx s + (if kind_of cfg s tk = NightFrame then 1 else 0)"
proof (cases "t_frame tk")
  case None
  then show ?thesis by (simp add: update_no_frame kind_no_frame)
next
  case (Some f)
  show ?thesis
  proof (cases "is_daytime_mode cfg (t_now tk)")
    case True
    show ?thesis unfolding update_day [OF Some True] kind_day [OF Some True]
      by (simp add: process_day_mode_def mode_transitions_fields Let_def split: option.splits)
  next
    case False
    show ?thesis unfolding update_night [OF Some False] kind_night [OF Some False]
      by (simp add: process_night_mode_def mode_transitions_fields Let_def split: option.splits)
  qed
qed

lemma run_frame_idx:
  "frame_idx (run_state cfg s tks) =
     frame_idx s + length (filter (\<lambda>x. ev_kind x = NightFrame) (run_trace cfg s tks))"
proof (induction tks arbitrary: s)
  case Nil
  then show ?case by simp
next
  case (Cons tk tks)
  show ?case
    by (simp add: Cons.IH step_frame_idx event_of_def)
qed

lemma step_snapshot:
  assumes "SaveSnapshot \<in> set (snd (update_auto_system cfg s tk))"
  shows "kind_of cfg s tk = NightFrame \<and> WARMUP_FRAMES < frame_idx s + 1"
proof (cases "t_frame tk")
  case None
  with assms show ?thesis by (simp add: update_no_frame)
next
  case (Some f)
  show ?thesis
  proof (cases "is_daytime_mode cfg (t_now tk)")
    case True
    show ?thesis using assms unfolding update_day [OF Some True]
      by (auto simp: process_day_mode_def Let_def split: option.splits if_splits)
  next
    case False
    show ?thesis using assms unfolding update_night [OF Some False] kind_night [OF Some False]
      by (auto simp: process_night_mode_def mode_transitions_fields Let_def
          split: option.splits if_splits)
  qed
qed


lemma first_night_state:
  "run_state example_config init_state first_night_ticks =
     init_state\<lparr>prev_daytime := Some False, night_check_active := True,
                night_no_person_deadline := Some 72601, frame_idx := 31\<rparr>"
  by (simp add: first_night_ticks_def night_eval upt_conv_Cons)

lemma second_night_tail:
  "run_trace example_config (run_state example_config init_state first_night_ticks)
     [day_frame False 86400, night_frame False [] 86400, night_frame False [] 87000,
      night_frame False [2000] 87001] =
     [\<lparr>ev_kind = DaySkipped, ev_now = 118800, ev_actions = []\<rparr>,
      \<lparr>ev_kind = NightFrame, ev_now = 158400, ev_actions = []\<rparr>,
      \<lparr>ev_kind = NightFrame, ev_now = 159000, ev_actions = [PowerOff]\<rparr>,
      \<lparr>ev_kind = NightFrame, ev_now = 159001, ev_actions = [SaveSnapshot]\<rparr>]"
  unfolding first_night_state by (simp add: night_eval)

lemma second_night_trace:
  "run_trace example_config init_state second_night_ticks =
     run_trace example_config init_state first_night_ticks @
     [\<lparr>ev_kind = DaySkipped, ev_now = 118800, ev_actions = []\<rparr>,
      \<lparr>ev_kind = NightFrame, ev_now = 158400, ev_actions = []\<rparr>,
      \<lparr>ev_kind = NightFrame, ev_now = 159000, ev_actions = [PowerOff]\<rparr>,
      \<lparr>ev_kind = NightFrame, ev_now = 159001, ev_actions = [SaveSnapshot]\<rparr>]"
  unfolding second_night_ticks_def run_trace_append second_night_tail by (rule refl)

lemma length_first_night: "length (run_trace example_config init_state first_night_ticks) = 31"
  by (simp add: length_run_trace first_night_ticks_def)



end
